theory Spec2Isabelle
  imports Main "HOL-Library.AList"
begin

section \<open>Wire data\<close>

text \<open>
  Payloads are JSON values. The Go code builds them as \<open>map[string]interface{}\<close> and hands
  them to \<open>json.Marshal\<close>; the encoder itself is an external collaborator, so a payload is
  kept as the value it encodes. An object is its list of members; members are looked up by
  key (\<open>map_of\<close>), their order carries no meaning.
\<close>

datatype json =
    JNull
  | JBool bool
  | JNum int
  | JStr string
  | JArr "json list"
  | JObj "(string \<times> json) list"

text \<open>\<open>Message\<close>: \<open>Data\<close> is \<open>None\<close> for a nil \<open>json.RawMessage\<close> (the key is omitted).\<close>

record Message =
  Command :: string
  Game :: string
  Data :: "json option"

record ActionSchema =
  sch_Type :: string
  sch_Properties :: "(string \<times> json) list"
  sch_Required :: "string list"

record ActionDefinition =
  def_Name :: string
  def_Description :: string
  def_Schema :: "ActionSchema option"

record IncomingAction =
  ia_ID :: string
  ia_Name :: string
  ia_Data :: "json option"

record ExecutionResult =
  Successful :: bool
  ResultMessage :: string

definition NewSuccessResult :: "string \<Rightarrow> ExecutionResult" where
  "NewSuccessResult message = \<lparr>Successful = True, ResultMessage = message\<rparr>"

definition NewFailureResult :: "string \<Rightarrow> ExecutionResult" where
  "NewFailureResult message = \<lparr>Successful = False, ResultMessage = message\<rparr>"

text \<open>\<open>type Priority string\<close> with its four constants.\<close>

type_synonym Priority = string

definition PriorityLow :: Priority where "PriorityLow = ''low''"
definition PriorityMedium :: Priority where "PriorityMedium = ''medium''"
definition PriorityHigh :: Priority where "PriorityHigh = ''high''"
definition PriorityCritical :: Priority where "PriorityCritical = ''critical''"

text \<open>
  The struct tags of \<open>ActionSchema\<close> and \<open>ActionDefinition\<close>: \<open>properties\<close>, \<open>required\<close> and
  \<open>schema\<close> are \<open>omitempty\<close>.
\<close>

definition schemaJson :: "ActionSchema \<Rightarrow> json" where
  "schemaJson s = JObj ([(''type'', JStr (sch_Type s))]
      @ (if sch_Properties s = [] then [] else [(''properties'', JObj (sch_Properties s))])
      @ (if sch_Required s = [] then [] else [(''required'', JArr (map JStr (sch_Required s)))]))"

definition definitionJson :: "ActionDefinition \<Rightarrow> json" where
  "definitionJson d = JObj ([(''name'', JStr (def_Name d)), (''description'', JStr (def_Description d))]
      @ (case def_Schema d of None \<Rightarrow> [] | Some s \<Rightarrow> [(''schema'', schemaJson s)]))"

section \<open>Errors and outcomes\<close>

text \<open>
  Go errors as the code makes them: \<open>errors.New msg\<close>, \<open>fmt.Errorf("msg: %w", err)\<close>, and
  the errors that come out of the websocket library. An operation either returns nil
  (\<open>Success\<close>), returns an error (\<open>Failure\<close>), panics, or waits for a mutex that is never
  released and so does not return (\<open>Blocked\<close>).
\<close>

datatype error =
    New string
  | Wrapf string error
  | External string

fun errorString :: "error \<Rightarrow> string" where
  "errorString (New m) = m"
| "errorString (Wrapf m e) = m @ '': '' @ errorString e"
| "errorString (External m) = m"

datatype outcome = Success | Failure error | Panic string | Blocked

text \<open>
  The code has a single error type. The specification's taxonomy is read off the message of
  the innermost \<open>errors.New\<close>: lifecycle violations are state errors, rejected arguments are
  validation errors, and whatever the transport reports is a transport error.
\<close>

datatype errorKind = ConfigError | StateError | ConnectionError | ValidationError | TransportError

fun kindOf :: "error \<Rightarrow> errorKind" where
  "kindOf (New m) =
     (if m = ''not connected'' \<or> m = ''client is closed'' \<or> m = ''already connected''
         \<or> m = ''window already registered'' then StateError
      else if m = ''action name cannot be empty'' \<or> m = ''must specify at least one action name''
         \<or> m = ''no actions in window'' then ValidationError
      else if m = ''game name is required'' \<or> m = ''websocket URL is required'' then ConfigError
      else TransportError)"
| "kindOf (Wrapf m e) =
     (if m = ''invalid websocket URL'' \<or> m = ''failed to connect'' then ConnectionError
      else kindOf e)"
| "kindOf (External m) = TransportError"

section \<open>Handlers, transport and client state\<close>

text \<open>
  An \<open>ActionHandler\<close> is host code behind an interface. The engine sees the three getters
  and the value \<open>Validate\<close> returns; a call of \<open>Validate\<close> or \<open>Execute\<close> is recorded as an
  event. \<open>'st\<close> is the opaque state handed from \<open>Validate\<close> to \<open>Execute\<close>.
\<close>

record 'st ActionHandler =
  GetName :: string
  GetDescription :: string
  GetSchema :: "ActionSchema option"
  Validate :: "json option \<Rightarrow> 'st \<times> ExecutionResult"

text \<open>
  The websocket handle. What \<open>WriteMessage\<close> and \<open>Close\<close> return is decided by the network:
  \<open>writeErr\<close> and \<open>closeErr\<close> are the errors (if any) it produces. \<open>released\<close> records that
  \<open>Close\<close> was called on the handle; a write on a released handle fails.
\<close>

record Conn =
  released :: bool
  writeErr :: "error option"
  closeErr :: "error option"

definition WriteMessage :: "Conn \<Rightarrow> Message \<Rightarrow> error option" where
  "WriteMessage k m =
     (if released k then Some (External ''use of closed network connection'') else writeErr k)"

definition connClose :: "Conn \<Rightarrow> error option \<times> Conn" where
  "connClose k = (closeErr k, k\<lparr>released := True\<rparr>)"

text \<open>
  The effects an operation has on the outside world, in the order they happen: a frame
  handed to \<open>conn.WriteMessage\<close>, a call of \<open>conn.Close\<close>, a call of a handler's \<open>Validate\<close>
  or \<open>Execute\<close>, a line given to the logger.
\<close>

datatype 'st event =
    WriteCall Message
  | CloseCall
  | ValidateCall "'st ActionHandler" "json option"
  | ExecuteCall "'st ActionHandler" 'st
  | Logged string

record ClientConfig =
  cfg_Game :: string
  cfg_WebsocketURL :: string

text \<open>
  \<open>Client\<close>. The registry \<open>actions\<close> is a Go map, kept as an association list updated in
  place; \<open>closeChanClosed\<close> is the state of \<open>closeChan\<close>; \<open>events\<close> is the log of effects.

  The mutexes. The model runs one operation at a time, each to its end, so an operation
  finds a mutex held only when the call that took it never returned. \<open>connMu\<close> and
  \<open>actionsMu\<close> are true in that case: the mutex is held for writing and will not be released.
  A \<open>sync.RWMutex\<close> is not reentrant, so \<open>Lock\<close> and \<open>RLock\<close> on a mutex held for writing
  wait for ever, also in the goroutine that holds it. A call that takes a mutex and returns
  leaves the flag as it found it (the deferred unlock); the flag is written out where a
  nested call can meet it or where the call does not return.
\<close>

record 'st Client =
  config :: ClientConfig
  conn :: "Conn option"
  actions :: "(string \<times> 'st ActionHandler) list"
  closeChanClosed :: bool
  connected :: bool
  closed :: bool
  connMu :: bool
  actionsMu :: bool
  events :: "'st event list"

definition emit :: "'st Client \<Rightarrow> 'st event list \<Rightarrow> 'st Client" where
  "emit c es = c\<lparr>events := events c @ es\<rparr>"

definition lookup :: "'st Client \<Rightarrow> string \<Rightarrow> 'st ActionHandler option" where
  "lookup c name = map_of (actions c) name"

definition NewClient :: "ClientConfig \<Rightarrow> error + 'st Client" where
  "NewClient cfg =
     (if cfg_Game cfg = [] then Inl (New ''game name is required'')
      else if cfg_WebsocketURL cfg = [] then Inl (New ''websocket URL is required'')
      else Inr \<lparr>config = cfg, conn = None, actions = [], closeChanClosed = False,
                connected = False, closed = False, connMu = False, actionsMu = False,
                events = []\<rparr>)"

section \<open>Sending\<close>

text \<open>
  \<open>send\<close>: the single path to the transport, under \<open>connMu.RLock\<close>. \<open>json.Marshal\<close> of the
  envelope cannot fail on a payload that is a JSON value, so that branch has no counterpart.
  A nil \<open>conn\<close> on a client marked connected is a nil dereference.
\<close>

definition send :: "'st Client \<Rightarrow> Message \<Rightarrow> outcome \<times> 'st Client" where
  "send c msg =
     (if connMu c then (Blocked, c)
      else if \<not> connected c then (Failure (New ''not connected''), c)
      else let msg' = msg\<lparr>Game := cfg_Game (config c)\<rparr> in
        (case conn c of
           None \<Rightarrow> (Panic ''nil pointer dereference'', c)
         | Some k \<Rightarrow>
             (case WriteMessage k msg' of
                Some err \<Rightarrow> (Failure (Wrapf ''failed to send message'' err), emit c [WriteCall msg'])
              | None \<Rightarrow> (Success, emit c [WriteCall msg', Logged (''Sent: '' @ Command msg')]))))"

definition Startup :: "'st Client \<Rightarrow> outcome \<times> 'st Client" where
  "Startup c = send c \<lparr>Command = ''startup'', Game = [], Data = None\<rparr>"

definition SendContext :: "'st Client \<Rightarrow> string \<Rightarrow> bool \<Rightarrow> outcome \<times> 'st Client" where
  "SendContext c message silent =
     send c \<lparr>Command = ''context'', Game = [],
             Data = Some (JObj [(''message'', JStr message), (''silent'', JBool silent)])\<rparr>"

definition SendShutdownReady :: "'st Client \<Rightarrow> outcome \<times> 'st Client" where
  "SendShutdownReady c = send c \<lparr>Command = ''shutdown/ready'', Game = [], Data = None\<rparr>"

definition SendActionResult :: "'st Client \<Rightarrow> string \<Rightarrow> bool \<Rightarrow> string \<Rightarrow> outcome \<times> 'st Client" where
  "SendActionResult c ident success message =
     send c \<lparr>Command = ''action/result'', Game = [],
             Data = Some (JObj [(''id'', JStr ident), (''success'', JBool success),
                                (''message'', JStr message)])\<rparr>"

section \<open>Connecting and closing\<close>

text \<open>
  \<open>Connect\<close>. Parsing the URL and dialling are the environment's part; their result is the
  argument \<open>d\<close>. The read loop it starts is driven by incoming frames (see \<open>handleMessage\<close>).
  \<open>Connect\<close> holds \<open>connMu.Lock\<close> from its first line to its return, and calls \<open>Startup\<close> in
  between.
\<close>

datatype dialResult = BadURL error | DialFailed error | Dialed Conn

definition Connect :: "dialResult \<Rightarrow> 'st Client \<Rightarrow> outcome \<times> 'st Client" where
  "Connect d c =
     (if connMu c then (Blocked, c)
      else if closed c then (Failure (New ''client is closed''), c)
      else if connected c then (Failure (New ''already connected''), c)
      else (case d of
          BadURL err \<Rightarrow> (Failure (Wrapf ''invalid websocket URL'' err), c)
        | DialFailed err \<Rightarrow> (Failure (Wrapf ''failed to connect'' err), c)
        | Dialed k \<Rightarrow>
            (let c1 = c\<lparr>connMu := True, conn := Some k, connected := True\<rparr> in
             (case Startup c1 of
                (Blocked, c2) \<Rightarrow> (Blocked, c2)
              | (Failure err, c2) \<Rightarrow>
                  (Success, (emit c2 [Logged (''Failed to send startup message: '' @ errorString err)])
                              \<lparr>connMu := False\<rparr>)
              | (r, c2) \<Rightarrow> (r, c2\<lparr>connMu := False\<rparr>)))))"

definition Close :: "'st Client \<Rightarrow> outcome \<times> 'st Client" where
  "Close c =
     (if connMu c then (Blocked, c)
      else if closed c then (Success, c)
      else let c1 = c\<lparr>closed := True\<rparr> in
        if closeChanClosed c1 then (Panic ''close of closed channel'', c1)
        else let c2 = c1\<lparr>closeChanClosed := True\<rparr> in
          (case conn c2 of
             Some k \<Rightarrow>
               (case connClose k of
                  (None, k') \<Rightarrow> (Success, emit (c2\<lparr>conn := Some k'\<rparr>) [CloseCall])
                | (Some err, k') \<Rightarrow> (Failure err, emit (c2\<lparr>conn := Some k'\<rparr>) [CloseCall]))
           | None \<Rightarrow> (Success, c2)))"

section \<open>The registry\<close>

text \<open>
  The loop of \<open>RegisterActions\<close>: it stops at the first empty name, with the insertions made
  so far left in the map. \<open>definitionOf\<close> is the \<open>ActionDefinition\<close> literal built for a
  handler.
\<close>

definition definitionOf :: "'st ActionHandler \<Rightarrow> ActionDefinition" where
  "definitionOf h =
     \<lparr>def_Name = GetName h, def_Description = GetDescription h, def_Schema = GetSchema h\<rparr>"

fun registerLoop ::
  "(string \<times> 'st ActionHandler) list \<Rightarrow> ActionDefinition list \<Rightarrow> 'st ActionHandler list
     \<Rightarrow> error option \<times> (string \<times> 'st ActionHandler) list \<times> ActionDefinition list" where
  "registerLoop reg defs [] = (None, reg, defs)"
| "registerLoop reg defs (h # hs) =
     (let name = GetName h in
      if name = [] then (Some (New ''action name cannot be empty''), reg, defs)
      else registerLoop (AList.update name h reg) (defs @ [definitionOf h]) hs)"

definition RegisterActions :: "'st Client \<Rightarrow> 'st ActionHandler list \<Rightarrow> outcome \<times> 'st Client" where
  "RegisterActions c handlers =
     (if handlers = [] then (Success, c)
      else if actionsMu c then (Blocked, c)
      else (case registerLoop (actions c) [] handlers of
          (Some err, reg, defs) \<Rightarrow> (Failure err, c\<lparr>actions := reg\<rparr>)
        | (None, reg, defs) \<Rightarrow>
            (case send (c\<lparr>actions := reg\<rparr>)
                    \<lparr>Command = ''actions/register'', Game = [],
                     Data = Some (JObj [(''actions'', JArr (map definitionJson defs))])\<rparr> of
               (Blocked, c1) \<Rightarrow> (Blocked, c1\<lparr>actionsMu := True\<rparr>)
             | (r, c1) \<Rightarrow> (r, c1))))"

definition RegisterAction :: "'st Client \<Rightarrow> 'st ActionHandler \<Rightarrow> outcome \<times> 'st Client" where
  "RegisterAction c handler = RegisterActions c [handler]"

definition UnregisterActions :: "'st Client \<Rightarrow> string list \<Rightarrow> outcome \<times> 'st Client" where
  "UnregisterActions c names =
     (if names = [] then (Success, c)
      else if actionsMu c then (Blocked, c)
      else (case send (c\<lparr>actions := fold AList.delete names (actions c)\<rparr>)
                   \<lparr>Command = ''actions/unregister'', Game = [],
                    Data = Some (JObj [(''action_names'', JArr (map JStr names))])\<rparr> of
              (Blocked, c1) \<Rightarrow> (Blocked, c1\<lparr>actionsMu := True\<rparr>)
            | (r, c1) \<Rightarrow> (r, c1)))"

definition UnregisterAction :: "'st Client \<Rightarrow> string \<Rightarrow> outcome \<times> 'st Client" where
  "UnregisterAction c name = UnregisterActions c [name]"

text \<open>
  \<open>resendRegisteredActions\<close> collects the handlers of the map (in the map's iteration
  order, here the list's) and registers them again when there is at least one.
\<close>

definition resendRegisteredActions :: "'st Client \<Rightarrow> outcome \<times> 'st Client" where
  "resendRegisteredActions c =
     (if actionsMu c then (Blocked, c)
      else let handlers = map snd (actions c) in
      if handlers \<noteq> [] then
        (case RegisterActions c handlers of
           (Failure err, c1) \<Rightarrow>
             (Success, emit c1 [Logged (''Failed to resend registered actions: '' @ errorString err)])
         | (r, c1) \<Rightarrow> (r, c1))
      else (Success, c))"

section \<open>Forcing\<close>

record forceConfig =
  fc_state :: string
  fc_ephemeralContext :: bool
  fc_priority :: Priority

text \<open>
  A \<open>ForceOption\<close> is one of the closures returned by \<open>WithState\<close>, \<open>WithEphemeralContext\<close>
  and \<open>WithPriority\<close>; \<open>applyOption\<close> is the call \<open>opt(config)\<close>.
\<close>

datatype ForceOption = WithState string | WithEphemeralContext bool | WithPriority Priority

fun applyOption :: "forceConfig \<Rightarrow> ForceOption \<Rightarrow> forceConfig" where
  "applyOption c (WithState s) = c\<lparr>fc_state := s\<rparr>"
| "applyOption c (WithEphemeralContext e) = c\<lparr>fc_ephemeralContext := e\<rparr>"
| "applyOption c (WithPriority p) = c\<lparr>fc_priority := p\<rparr>"

definition forceData :: "string \<Rightarrow> string list \<Rightarrow> forceConfig \<Rightarrow> (string \<times> json) list" where
  "forceData query actionNames cfg =
     [(''query'', JStr query),
      (''action_names'', JArr (map JStr actionNames)),
      (''ephemeral_context'', JBool (fc_ephemeralContext cfg)),
      (''priority'', JStr (fc_priority cfg))]
     @ (if fc_state cfg \<noteq> [] then [(''state'', JStr (fc_state cfg))] else [])"

definition ForceActions ::
  "'st Client \<Rightarrow> string \<Rightarrow> string list \<Rightarrow> ForceOption list \<Rightarrow> outcome \<times> 'st Client" where
  "ForceActions c query actionNames opts =
     (if actionNames = [] then (Failure (New ''must specify at least one action name''), c)
      else let cfg = foldl applyOption
                       \<lparr>fc_state = [], fc_ephemeralContext = False, fc_priority = PriorityLow\<rparr> opts in
        send c \<lparr>Command = ''actions/force'', Game = [],
                Data = Some (JObj (forceData query actionNames cfg))\<rparr>)"

section \<open>The invocation pipeline\<close>

definition handleAction :: "'st Client \<Rightarrow> IncomingAction \<Rightarrow> outcome \<times> 'st Client" where
  "handleAction c action =
     (if actionsMu c then (Blocked, c)
      else case lookup c (ia_Name action) of
        None \<Rightarrow>
          (case SendActionResult c (ia_ID action) False (''Unknown action: '' @ ia_Name action) of
             (Panic p, c1) \<Rightarrow> (Panic p, c1)
           | (Blocked, c1) \<Rightarrow> (Blocked, c1)
           | (r, c1) \<Rightarrow> (Success, c1))
      | Some handler \<Rightarrow>
          (let (state, result) = Validate handler (ia_Data action);
               c1 = emit c [ValidateCall handler (ia_Data action)] in
           (case SendActionResult c1 (ia_ID action) (Successful result) (ResultMessage result) of
              (Panic p, c2) \<Rightarrow> (Panic p, c2)
            | (Blocked, c2) \<Rightarrow> (Blocked, c2)
            | (r, c2) \<Rightarrow>
                (let c3 = (case r of
                             Failure err \<Rightarrow>
                               emit c2 [Logged (''Failed to send action result: '' @ errorString err)]
                           | _ \<Rightarrow> c2) in
                 if Successful result then (Success, emit c3 [ExecuteCall handler state])
                 else (Success, c3)))))"

section \<open>Action windows\<close>

record 'st ActionWindow =
  w_actions :: "'st ActionHandler list"
  w_forceOpts :: "ForceOption list"
  w_query :: string
  w_registered :: bool
  w_mu :: bool

definition NewActionWindow :: "'st ActionWindow" where
  "NewActionWindow = \<lparr>w_actions = [], w_forceOpts = [], w_query = [], w_registered = False,
                      w_mu = False\<rparr>"

text \<open>
  A window holds a pointer to its client; the operations take and return both. \<open>w_mu\<close> is the
  window's mutex, read like the client's. \<open>AddAction\<close> and \<open>SetForce\<close> return the window
  itself.
\<close>

definition AddAction ::
  "'st ActionWindow \<Rightarrow> 'st Client \<Rightarrow> 'st ActionHandler
     \<Rightarrow> outcome \<times> 'st ActionWindow \<times> 'st Client" where
  "AddAction w c handler =
     (if w_mu w then (Blocked, w, c)
      else if w_registered w then
        (Success, w, emit c [Logged ''Cannot add action to registered window''])
      else (Success, w\<lparr>w_actions := w_actions w @ [handler]\<rparr>, c))"

definition SetForce ::
  "'st ActionWindow \<Rightarrow> 'st Client \<Rightarrow> string \<Rightarrow> ForceOption list
     \<Rightarrow> outcome \<times> 'st ActionWindow \<times> 'st Client" where
  "SetForce w c query opts =
     (if w_mu w then (Blocked, w, c)
      else if w_registered w then (Success, w, emit c [Logged ''Cannot modify registered window''])
      else (Success, w\<lparr>w_query := query, w_forceOpts := opts\<rparr>, c))"

text \<open>
  \<open>Register\<close> ends by starting a goroutine that sleeps and then calls \<open>ForceActions\<close>. The
  started goroutine is returned as a value, the call it will make; \<open>runDelayedForce\<close> is its
  body after the sleep. The goroutine reads the window's query and options when it runs;
  a registered window refuses \<open>SetForce\<close>, so they are the ones the window has at the start.
\<close>

record DelayedForce =
  df_query :: string
  df_names :: "string list"
  df_opts :: "ForceOption list"

definition Register ::
  "'st ActionWindow \<Rightarrow> 'st Client
     \<Rightarrow> outcome \<times> 'st ActionWindow \<times> 'st Client \<times> DelayedForce option" where
  "Register w c =
     (if w_mu w then (Blocked, w, c, None)
      else if w_registered w then (Failure (New ''window already registered''), w, c, None)
      else if w_actions w = [] then (Failure (New ''no actions in window''), w, c, None)
      else let w1 = w\<lparr>w_registered := True\<rparr> in
        (case RegisterActions c (w_actions w1) of
           (Failure err, c1) \<Rightarrow> (Failure (Wrapf ''failed to register actions'' err), w1, c1, None)
         | (Panic p, c1) \<Rightarrow> (Panic p, w1, c1, None)
         | (Blocked, c1) \<Rightarrow> (Blocked, w1\<lparr>w_mu := True\<rparr>, c1, None)
         | (Success, c1) \<Rightarrow>
             (Success, w1, c1,
              Some \<lparr>df_query = w_query w1, df_names = map GetName (w_actions w1),
                    df_opts = w_forceOpts w1\<rparr>)))"

definition runDelayedForce :: "'st Client \<Rightarrow> DelayedForce \<Rightarrow> outcome \<times> 'st Client" where
  "runDelayedForce c d =
     (case ForceActions c (df_query d) (df_names d) (df_opts d) of
        (Failure err, c1) \<Rightarrow> (Success, emit c1 [Logged (''Failed to force actions: '' @ errorString err)])
      | (r, c1) \<Rightarrow> (r, c1))"

definition End ::
  "'st ActionWindow \<Rightarrow> 'st Client \<Rightarrow> outcome \<times> 'st ActionWindow \<times> 'st Client" where
  "End w c =
     (if w_mu w then (Blocked, w, c)
      else if \<not> w_registered w then (Success, w, c)
      else (case UnregisterActions c (map GetName (w_actions w)) of
              (Blocked, c1) \<Rightarrow> (Blocked, w\<lparr>w_mu := True\<rparr>, c1)
            | (r, c1) \<Rightarrow> (r, w, c1)))"

section \<open>Dispatch of incoming frames\<close>

text \<open>
  \<open>handleMessage\<close>. The two \<open>json.Unmarshal\<close> calls are the decoder's part and come in as
  the arguments \<open>unmarshalMessage\<close> and \<open>unmarshalAction\<close>. The goroutine started for an
  action or a re-registration request is run to its end on the spot, which is one of the
  schedules the runtime may choose; \<open>handleMessage\<close> itself returns nil also when that
  goroutine stays blocked.
\<close>

definition handleMessage ::
  "(string \<Rightarrow> error + Message) \<Rightarrow> (json option \<Rightarrow> error + IncomingAction)
     \<Rightarrow> 'st Client \<Rightarrow> string \<Rightarrow> outcome \<times> 'st Client" where
  "handleMessage unmarshalMessage unmarshalAction c msgBytes =
     (case unmarshalMessage msgBytes of
        Inl err \<Rightarrow> (Failure (Wrapf ''failed to parse message'' err), c)
      | Inr msg \<Rightarrow>
          (let c1 = emit c [Logged (''Received: '' @ Command msg)] in
           if Command msg = ''action'' then
             (case unmarshalAction (Data msg) of
                Inl err \<Rightarrow> (Failure (Wrapf ''failed to parse action data'' err), c1)
              | Inr action \<Rightarrow>
                  (case handleAction c1 action of
                     (Panic p, c2) \<Rightarrow> (Panic p, c2)
                   | (r, c2) \<Rightarrow> (Success, c2)))
           else if Command msg = ''actions/reregister_all'' then
             (case resendRegisteredActions c1 of
                (Panic p, c2) \<Rightarrow> (Panic p, c2)
              | (r, c2) \<Rightarrow> (Success, c2))
           else (Success, emit c1 [Logged (''Unhandled command: '' @ Command msg)])))"

section \<open>Runs of operations\<close>

text \<open>
  The operations of a client that reach the transport, as values, so that a history of
  calls can be replayed from a starting state. The singular \<open>RegisterAction\<close> and
  \<open>UnregisterAction\<close> and the window operations are made of these. A call that does not
  return leaves its goroutine waiting; the run goes on with the next call, made from
  another goroutine.
\<close>

datatype 'st operation =
    OpConnect dialResult
  | OpClose
  | OpStartup
  | OpSendContext string bool
  | OpSendShutdownReady
  | OpRegisterActions "'st ActionHandler list"
  | OpUnregisterActions "string list"
  | OpForceActions string "string list" "ForceOption list"
  | OpSendActionResult string bool string
  | OpHandleAction IncomingAction
  | OpResendRegisteredActions

fun perform :: "'st operation \<Rightarrow> 'st Client \<Rightarrow> outcome \<times> 'st Client" where
  "perform (OpConnect d) c = Connect d c"
| "perform OpClose c = Close c"
| "perform OpStartup c = Startup c"
| "perform (OpSendContext message silent) c = SendContext c message silent"
| "perform OpSendShutdownReady c = SendShutdownReady c"
| "perform (OpRegisterActions handlers) c = RegisterActions c handlers"
| "perform (OpUnregisterActions names) c = UnregisterActions c names"
| "perform (OpForceActions query names opts) c = ForceActions c query names opts"
| "perform (OpSendActionResult ident success message) c = SendActionResult c ident success message"
| "perform (OpHandleAction action) c = handleAction c action"
| "perform OpResendRegisteredActions c = resendRegisteredActions c"

fun performAll :: "'st operation list \<Rightarrow> 'st Client \<Rightarrow> 'st Client" where
  "performAll [] c = c"
| "performAll (op # ops) c = performAll ops (snd (perform op c))"

section \<open>Reading the log of effects\<close>

text \<open>
  \<open>newEvents c c'\<close> are the effects added between two states; \<open>writesOf\<close>, \<open>executesOf\<close>
  and \<open>validatesOf\<close> pick the frames written and the handler calls out of a log.
\<close>

definition newEvents :: "'st Client \<Rightarrow> 'st Client \<Rightarrow> 'st event list" where
  "newEvents c c' = drop (length (events c)) (events c')"

fun writesOf :: "'st event list \<Rightarrow> Message list" where
  "writesOf [] = []"
| "writesOf (WriteCall m # es) = m # writesOf es"
| "writesOf (e # es) = writesOf es"




text \<open>The registry after inserting a list of handlers in order, later names overwriting.\<close>

definition insertAll ::
  "'st ActionHandler list \<Rightarrow> (string \<times> 'st ActionHandler) list \<Rightarrow> (string \<times> 'st ActionHandler) list" where
  "insertAll hs reg = fold (\<lambda>h. AList.update (GetName h) h) hs reg"

text \<open>
  \<open>stampedStep c c'\<close>: \<open>c'\<close> comes from \<open>c\<close> by appending effects, every frame among
  them carries the configured game, and the configuration is the same.
\<close>

definition stampedStep :: "'st Client \<Rightarrow> 'st Client \<Rightarrow> bool" where
  "stampedStep c c' \<longleftrightarrow>
     config c' = config c
     \<and> (\<exists>es. events c' = events c @ es \<and> (\<forall>w\<in>set (writesOf es). Game w = cfg_Game (config c)))"





section \<open>Example values\<close>

text \<open>
  A configuration for game \<open>T\<close>, a healthy open handle, some handlers, and clients:
  \<open>freshClient\<close> is what \<open>NewClient\<close> returns; \<open>connectedClient\<close> and \<open>demoClient\<close> are
  connected, hold the open handle and have their mutexes free, the second with \<open>ping\<close>
  registered; \<open>closedClient\<close> is \<open>connectedClient\<close> after \<open>Close\<close>.
\<close>

definition demoConfig :: ClientConfig where
  "demoConfig = \<lparr>cfg_Game = ''T'', cfg_WebsocketURL = ''ws://localhost:8000''\<rparr>"

definition openConn :: Conn where
  "openConn = \<lparr>released = False, writeErr = None, closeErr = None\<rparr>"

definition pingHandler :: "string ActionHandler" where
  "pingHandler = \<lparr>GetName = ''ping'', GetDescription = ''Answers a ping'', GetSchema = None,
      Validate = (\<lambda>d. (''validated'', NewSuccessResult ''pong''))\<rparr>"

definition freshClient :: "string Client" where
  "freshClient = \<lparr>config = demoConfig, conn = None, actions = [], closeChanClosed = False,
      connected = False, closed = False, connMu = False, actionsMu = False, events = []\<rparr>"

definition demoClient :: "string Client" where
  "demoClient = \<lparr>config = demoConfig, conn = Some openConn, actions = [(''ping'', pingHandler)],
      closeChanClosed = False, connected = True, closed = False, connMu = False,
      actionsMu = False, events = []\<rparr>"

definition pingTwice :: "string ActionHandler" where
  "pingTwice = \<lparr>GetName = ''ping'', GetDescription = ''A second handler named ping'', GetSchema = None,
      Validate = (\<lambda>d. (''second'', NewFailureResult ''busy''))\<rparr>"

definition namelessHandler :: "string ActionHandler" where
  "namelessHandler = \<lparr>GetName = [], GetDescription = ''No name'', GetSchema = None,
      Validate = (\<lambda>d. ([], NewFailureResult ''nameless''))\<rparr>"

definition jumpHandler :: "string ActionHandler" where
  "jumpHandler = \<lparr>GetName = ''jump'', GetDescription = ''Jumps'', GetSchema = None,
      Validate = (\<lambda>d. ([], NewFailureResult ''cannot jump now''))\<rparr>"

definition connectedClient :: "string Client" where
  "connectedClient = \<lparr>config = demoConfig, conn = Some openConn, actions = [],
      closeChanClosed = False, connected = True, closed = False, connMu = False,
      actionsMu = False, events = []\<rparr>"


definition demoWindow :: "string ActionWindow" where
  "demoWindow = \<lparr>w_actions = [pingHandler], w_forceOpts = [WithPriority PriorityHigh],
                  w_query = ''choose'', w_registered = False, w_mu = False\<rparr>"

section \<open>Facts about sending\<close>


lemma send_actions: "actions (snd (send c msg)) = actions c"
  by (simp add: send_def emit_def Let_def split: option.splits)

lemma writesOf_append: "writesOf (xs @ ys) = writesOf xs @ writesOf ys"
  by (induction xs rule: writesOf.induct) simp_all

section \<open>Facts about the registry\<close>

lemma registerLoop_named:
  "\<forall>h\<in>set hs. GetName h \<noteq> [] \<Longrightarrow>
     registerLoop reg defs hs = (None, insertAll hs reg, defs @ map definitionOf hs)"
  by (induction hs arbitrary: reg defs) (simp_all add: insertAll_def Let_def)

lemma registerLoop_stops:
  "\<forall>h\<in>set pre. GetName h \<noteq> [] \<Longrightarrow> GetName e = [] \<Longrightarrow>
     registerLoop reg defs (pre @ e # post) =
       (Some (New ''action name cannot be empty''), insertAll pre reg, defs @ map definitionOf pre)"
  by (induction pre arbitrary: reg defs) (simp_all add: insertAll_def Let_def)

lemma map_of_insertAll:
  "map_of (insertAll hs reg) n =
     (case find (\<lambda>x. GetName x = n) (rev hs) of Some h \<Rightarrow> Some h | None \<Rightarrow> map_of reg n)"
proof (induction hs rule: rev_induct)
  case Nil
  show ?case by (simp add: insertAll_def)
next
  case (snoc x xs)
  have "insertAll (xs @ [x]) reg = AList.update (GetName x) x (insertAll xs reg)"
    by (simp add: insertAll_def)
  then show ?case using snoc by (simp add: update_conv')
qed

lemma find_last_occurrence:
  assumes "i < length hs" and "\<forall>j. i < j \<and> j < length hs \<longrightarrow> GetName (hs ! j) \<noteq> GetName (hs ! i)"
  shows "find (\<lambda>x. GetName x = GetName (hs ! i)) (rev hs) = Some (hs ! i)"
  using assms
proof (induction hs rule: rev_induct)
  case Nil
  then show ?case by simp
next
  case (snoc x xs)
  show ?case
  proof (cases "i = length xs")
    case True
    then show ?thesis by simp
  next
    case False
    with snoc.prems have lt: "i < length xs" by simp
    have "GetName x \<noteq> GetName (xs ! i)"
      using snoc.prems(2) [rule_format, of "length xs"] lt by (simp add: nth_append)
    moreover have "\<forall>j. i < j \<and> j < length xs \<longrightarrow> GetName (xs ! j) \<noteq> GetName (xs ! i)"
    proof (intro allI impI)
      fix j assume "i < j \<and> j < length xs"
      then show "GetName (xs ! j) \<noteq> GetName (xs ! i)"
        using snoc.prems(2) [rule_format, of j] lt by (simp add: nth_append)
    qed
    ultimately show ?thesis using snoc.IH lt by (simp add: nth_append)
  qed
qed

lemma find_absent:
  "n \<notin> GetName ` set hs \<Longrightarrow> find (\<lambda>x. GetName x = n) (rev hs) = None"
  by (auto simp: find_None_iff)

lemma first_empty_split:
  assumes "i < length H" and "GetName (H ! i) = []" and "\<forall>j<i. GetName (H ! j) \<noteq> []"
  shows "H = take i H @ (H ! i) # drop (Suc i) H \<and> (\<forall>h\<in>set (take i H). GetName h \<noteq> [])"
proof
  show "H = take i H @ (H ! i) # drop (Suc i) H"
    using assms(1) by (simp add: id_take_nth_drop)
  show "\<forall>h\<in>set (take i H). GetName h \<noteq> []"
  proof
    fix h assume "h \<in> set (take i H)"
    then obtain j where "j < length (take i H)" and "take i H ! j = h"
      by (auto simp: in_set_conv_nth)
    then show "GetName h \<noteq> []" using assms(1,3) by auto
  qed
qed

lemma RegisterActions_stops:
  assumes "i < length H" and "GetName (H ! i) = []" and "\<forall>j<i. GetName (H ! j) \<noteq> []"
    and "\<not> actionsMu c"
  shows "RegisterActions c H =
           (Failure (New ''action name cannot be empty''), c\<lparr>actions := insertAll (take i H) (actions c)\<rparr>)"
proof -
  from first_empty_split [OF assms(1,2,3)]
  have split: "H = take i H @ (H ! i) # drop (Suc i) H"
    and named: "\<forall>h\<in>set (take i H). GetName h \<noteq> []" by simp_all
  have "registerLoop (actions c) [] (take i H @ (H ! i) # drop (Suc i) H) =
          (Some (New ''action name cannot be empty''), insertAll (take i H) (actions c),
           [] @ map definitionOf (take i H))"
    by (rule registerLoop_stops [OF named assms(2)])
  with split have loop: "registerLoop (actions c) [] H =
          (Some (New ''action name cannot be empty''), insertAll (take i H) (actions c),
           map definitionOf (take i H))" by simp
  have "H \<noteq> []" using assms(1) by auto
  then show ?thesis using assms(4) by (simp add: RegisterActions_def loop)
qed

lemma RegisterActions_named:
  assumes "\<forall>h\<in>set H. GetName h \<noteq> []" and "\<not> actionsMu c"
  shows "actions (snd (RegisterActions c H)) = insertAll H (actions c)"
proof (cases "H = []")
  case True
  then show ?thesis by (simp add: RegisterActions_def insertAll_def)
next
  case False
  let ?msg = "\<lparr>Command = ''actions/register'', Game = [],
               Data = Some (JObj [(''actions'', JArr (map definitionJson ([] @ map definitionOf H)))])\<rparr>"
  obtain r c1 where s: "send (c\<lparr>actions := insertAll H (actions c)\<rparr>) ?msg = (r, c1)"
    by (cases "send (c\<lparr>actions := insertAll H (actions c)\<rparr>) ?msg")
  then have "actions c1 = insertAll H (actions c)"
    using send_actions [of "c\<lparr>actions := insertAll H (actions c)\<rparr>" ?msg] by simp
  then show ?thesis using False assms(2) s
    by (cases r) (simp_all add: RegisterActions_def registerLoop_named [OF assms(1)])
qed

section \<open>Facts about force options\<close>



section \<open>The game stamp along a run\<close>

lemma stampedStep_refl: "stampedStep c c"
  by (simp add: stampedStep_def)

lemma stampedStep_trans:
  assumes "stampedStep a b" and "stampedStep b c"
  shows "stampedStep a c"
proof -
  from assms(1) obtain es where ab: "config b = config a" "events b = events a @ es"
    "\<forall>w\<in>set (writesOf es). Game w = cfg_Game (config a)"
    by (auto simp: stampedStep_def)
  from assms(2) obtain fs where bc: "config c = config b" "events c = events b @ fs"
    "\<forall>w\<in>set (writesOf fs). Game w = cfg_Game (config b)"
    by (auto simp: stampedStep_def)
  have "events c = events a @ (es @ fs)" using ab bc by simp
  moreover have "\<forall>w\<in>set (writesOf (es @ fs)). Game w = cfg_Game (config a)"
    using ab bc by (auto simp: writesOf_append)
  ultimately show ?thesis unfolding stampedStep_def using ab(1) bc(1) by metis
qed

lemma stampedStep_log: "stampedStep c (emit c [Logged s])"
  by (simp add: stampedStep_def emit_def)

lemma stampedStep_fields:
  "stampedStep (c\<lparr>actions := r\<rparr>) c' \<Longrightarrow> stampedStep c c'"
  "stampedStep (c\<lparr>connMu := m, conn := k, connected := b\<rparr>) c' \<Longrightarrow> stampedStep c c'"
  "stampedStep c c' \<Longrightarrow> stampedStep c (c'\<lparr>actionsMu := m\<rparr>)"
  "stampedStep c c' \<Longrightarrow> stampedStep c (c'\<lparr>connMu := m\<rparr>)"
  by (simp_all add: stampedStep_def)

lemma send_stamped: "stampedStep c (snd (send c msg))"
  by (simp add: send_def stampedStep_def emit_def Let_def split: option.splits)

lemma SendActionResult_stamped: "stampedStep c (snd (SendActionResult c i s m))"
  by (simp add: SendActionResult_def send_stamped)

lemma send_stamped_from:
  "send (c\<lparr>actions := reg\<rparr>) msg = (r, c1) \<Longrightarrow> stampedStep c c1 \<and> stampedStep c (c1\<lparr>actionsMu := m\<rparr>)"
proof -
  assume "send (c\<lparr>actions := reg\<rparr>) msg = (r, c1)"
  then have "stampedStep (c\<lparr>actions := reg\<rparr>) c1"
    using send_stamped [of "c\<lparr>actions := reg\<rparr>" msg] by simp
  then have "stampedStep c c1" by (rule stampedStep_fields(1))
  then show ?thesis by (simp add: stampedStep_fields(3))
qed

lemma RegisterActions_stamped: "stampedStep c (snd (RegisterActions c hs))"
proof (cases "registerLoop (actions c) [] hs")
  case (fields e reg defs)
  show ?thesis
  proof (cases e)
    case None
    let ?msg = "\<lparr>Command = ''actions/register'', Game = [],
                 Data = Some (JObj [(''actions'', JArr (map definitionJson defs))])\<rparr>"
    obtain r c1 where s: "send (c\<lparr>actions := reg\<rparr>) ?msg = (r, c1)"
      by (cases "send (c\<lparr>actions := reg\<rparr>) ?msg")
    from send_stamped_from [OF s] show ?thesis using None fields s
      by (cases r) (simp_all add: RegisterActions_def stampedStep_refl)
  next
    case (Some err)
    then show ?thesis using fields
      by (simp add: RegisterActions_def stampedStep_def)
  qed
qed

lemma UnregisterActions_stamped: "stampedStep c (snd (UnregisterActions c ns))"
proof -
  let ?msg = "\<lparr>Command = ''actions/unregister'', Game = [],
               Data = Some (JObj [(''action_names'', JArr (map JStr ns))])\<rparr>"
  obtain r c1 where s: "send (c\<lparr>actions := fold AList.delete ns (actions c)\<rparr>) ?msg = (r, c1)"
    by (cases "send (c\<lparr>actions := fold AList.delete ns (actions c)\<rparr>) ?msg")
  from send_stamped_from [OF s] show ?thesis using s
    by (cases r) (simp_all add: UnregisterActions_def stampedStep_refl)
qed

lemma ForceActions_stamped: "stampedStep c (snd (ForceActions c q ns opts))"
  by (simp add: ForceActions_def stampedStep_refl send_stamped Let_def)

lemma resend_stamped: "stampedStep c (snd (resendRegisteredActions c))"
proof (cases "RegisterActions c (map snd (actions c))")
  case (Pair r c1)
  then have step: "stampedStep c c1" using RegisterActions_stamped [of c "map snd (actions c)"] by simp
  have "stampedStep c (emit c1 [Logged s])" for s
    using stampedStep_trans [OF step stampedStep_log] .
  then show ?thesis using Pair step
    by (cases r) (simp_all add: resendRegisteredActions_def Let_def stampedStep_refl)
qed

lemma handleAction_stamped: "stampedStep c (snd (handleAction c a))"
proof (cases "lookup c (ia_Name a)")
  case None
  obtain r c1 where s: "SendActionResult c (ia_ID a) False (''Unknown action: '' @ ia_Name a) = (r, c1)"
    by (cases "SendActionResult c (ia_ID a) False (''Unknown action: '' @ ia_Name a)")
  then have "stampedStep c c1" using SendActionResult_stamped [of c "ia_ID a" False] by (metis snd_conv)
  then show ?thesis using None s by (cases r) (simp_all add: handleAction_def stampedStep_refl)
next
  case (Some h)
  obtain st res where v: "Validate h (ia_Data a) = (st, res)" by (cases "Validate h (ia_Data a)")
  let ?c1 = "emit c [ValidateCall h (ia_Data a)]"
  have s1: "stampedStep c ?c1" by (simp add: stampedStep_def emit_def)
  obtain r c2 where s: "SendActionResult ?c1 (ia_ID a) (Successful res) (ResultMessage res) = (r, c2)"
    by (cases "SendActionResult ?c1 (ia_ID a) (Successful res) (ResultMessage res)")
  then have "stampedStep ?c1 c2"
    using SendActionResult_stamped [of ?c1 "ia_ID a" "Successful res" "ResultMessage res"] by simp
  with s1 have s2: "stampedStep c c2" by (rule stampedStep_trans)
  have ev: "stampedStep x (emit x [ExecuteCall h st])" for x
    by (simp add: stampedStep_def emit_def)
  have s3: "stampedStep c (emit c2 [Logged t])" for t
    using stampedStep_trans [OF s2 stampedStep_log] .
  have s4: "stampedStep c (emit c2 [ExecuteCall h st])"
    using stampedStep_trans [OF s2 ev] by simp
  have s5: "stampedStep c (emit (emit c2 [Logged t]) [ExecuteCall h st])" for t
    using stampedStep_trans [OF s3 ev] by simp
  show ?thesis using Some v s s2 s3 s4 s5
    by (cases r) (simp_all add: handleAction_def Let_def stampedStep_refl)
qed

lemma Connect_stamped: "stampedStep c (snd (Connect d c))"
proof (cases d)
  case (Dialed k)
  let ?c1 = "c\<lparr>connMu := True, conn := Some k, connected := True\<rparr>"
  obtain r c2 where s: "Startup ?c1 = (r, c2)" by (cases "Startup ?c1")
  then have "stampedStep ?c1 c2"
    using send_stamped [of ?c1 "\<lparr>Command = ''startup'', Game = [], Data = None\<rparr>"]
    by (simp add: Startup_def)
  then have s2: "stampedStep c c2" by (rule stampedStep_fields(2))
  have s3: "stampedStep c (c2\<lparr>connMu := False\<rparr>)" using s2 by (rule stampedStep_fields(4))
  have "stampedStep c (emit c2 [Logged t])" for t
    using stampedStep_trans [OF s2 stampedStep_log] .
  then have s4: "stampedStep c ((emit c2 [Logged t])\<lparr>connMu := False\<rparr>)" for t
    by (rule stampedStep_fields(4))
  show ?thesis using Dialed s s2 s3 s4
    by (cases r) (simp_all add: Connect_def Let_def stampedStep_refl)
qed (simp_all add: Connect_def stampedStep_refl)

lemma Close_stamped: "stampedStep c (snd (Close c))"
  by (simp add: Close_def stampedStep_def emit_def connClose_def Let_def split: option.splits)

lemma perform_stamped: "stampedStep c (snd (perform op c))"
  by (cases op)
     (simp_all add: Connect_stamped Close_stamped Startup_def SendContext_def SendShutdownReady_def
        send_stamped RegisterActions_stamped UnregisterActions_stamped ForceActions_stamped
        SendActionResult_stamped handleAction_stamped resend_stamped)

lemma performAll_stamped: "stampedStep c (performAll ops c)"
proof (induction ops arbitrary: c)
  case Nil
  show ?case by (simp add: stampedStep_refl)
next
  case (Cons op ops)
  show ?case using stampedStep_trans [OF perform_stamped Cons.IH] by simp
qed

section \<open>Connecting\<close>

text \<open>
  \<open>Connect\<close> still holds \<open>connMu\<close> for writing when it calls \<open>Startup\<close>, and \<open>send\<close> asks for
  the same mutex for reading. On a successful dial the call therefore does not return; it
  leaves the client marked connected with the mutex held, and from then on every \<open>send\<close>
  and \<open>Close\<close> waits too. The claims about sending are stated below for a client that is
  connected and whose mutexes are free.
\<close>

lemma Connect_blocks:
  assumes "\<not> connMu c" and "\<not> closed c" and "\<not> connected c"
  shows "Connect (Dialed k) c = (Blocked, c\<lparr>connMu := True, conn := Some k, connected := True\<rparr>)"
  using assms by (simp add: Connect_def Startup_def send_def Let_def)

lemma blocked_after_Connect:
  assumes "\<not> connMu c" and "\<not> closed c" and "\<not> connected c"
  shows "send (snd (Connect (Dialed k) c)) msg = (Blocked, snd (Connect (Dialed k) c))"
    and "Close (snd (Connect (Dialed k) c)) = (Blocked, snd (Connect (Dialed k) c))"
  using assms by (simp_all add: Connect_blocks send_def Close_def)

section \<open>The example states\<close>


section \<open>The invocation pipeline: claims C1 and C2\<close>





section \<open>Sending after close: claim C3\<close>


section \<open>Window registration: claim C4\<close>

text \<open>
  Claim C4, as amended (the window's mutex is free). \<open>Register\<close> on a window already
  registered fails with the state
  error \<open>window already registered\<close>; on an unregistered window without handlers it fails
  with the validation error \<open>no actions in window\<close>; both leave window and client as they
  were. When the inner \<open>RegisterActions\<close> fails with \<open>err\<close>, \<open>Register\<close> returns \<open>err\<close>
  wrapped as \<open>failed to register actions\<close> (of the same kind as \<open>err\<close>) and starts no
  force announcement; the window is left with its \<open>registered\<close> flag set, so that any
  later \<open>Register\<close> on it fails with \<open>window already registered\<close>.
\<close>

theorem Register_failure_modes:
  "(\<not> w_mu w \<and> w_registered w \<longrightarrow>
      Register w c = (Failure (New ''window already registered''), w, c, None)
      \<and> kindOf (New ''window already registered'') = StateError)
   \<and> (\<not> w_mu w \<and> \<not> w_registered w \<and> w_actions w = [] \<longrightarrow>
      Register w c = (Failure (New ''no actions in window''), w, c, None)
      \<and> kindOf (New ''no actions in window'') = ValidationError)
   \<and> (\<not> w_mu w \<and> \<not> w_registered w \<and> w_actions w \<noteq> []
        \<and> RegisterActions c (w_actions w) = (Failure err, c1) \<longrightarrow>
      Register w c = (Failure (Wrapf ''failed to register actions'' err),
                      w\<lparr>w_registered := True\<rparr>, c1, None)
      \<and> kindOf (Wrapf ''failed to register actions'' err) = kindOf err
      \<and> fst (Register (w\<lparr>w_registered := True\<rparr>) c2) = Failure (New ''window already registered''))"
proof (intro conjI impI)
  assume "\<not> w_mu w \<and> w_registered w"
  then show "Register w c = (Failure (New ''window already registered''), w, c, None)"
    by (simp add: Register_def)
next
  assume "\<not> w_mu w \<and> \<not> w_registered w \<and> w_actions w = []"
  then show "Register w c = (Failure (New ''no actions in window''), w, c, None)"
    by (simp add: Register_def)
next
  assume h: "\<not> w_mu w \<and> \<not> w_registered w \<and> w_actions w \<noteq> []
             \<and> RegisterActions c (w_actions w) = (Failure err, c1)"
  then show "Register w c = (Failure (Wrapf ''failed to register actions'' err),
                             w\<lparr>w_registered := True\<rparr>, c1, None)"
    by (simp add: Register_def Let_def)
  from h have "\<not> w_mu (w\<lparr>w_registered := True\<rparr>)" by simp
  then show "fst (Register (w\<lparr>w_registered := True\<rparr>) c2) = Failure (New ''window already registered'')"
    by (simp add: Register_def)
qed simp_all

theorem Register_failure_modes_witness:
  "\<not> w_mu demoWindow \<and> \<not> w_mu (NewActionWindow :: string ActionWindow)
   \<and> w_registered (demoWindow\<lparr>w_registered := True\<rparr>)
   \<and> Register (demoWindow\<lparr>w_registered := True\<rparr>) demoClient
       = (Failure (New ''window already registered''), demoWindow\<lparr>w_registered := True\<rparr>, demoClient, None)
   \<and> \<not> w_registered (NewActionWindow :: string ActionWindow)
   \<and> w_actions (NewActionWindow :: string ActionWindow) = []
   \<and> Register (NewActionWindow :: string ActionWindow) demoClient
       = (Failure (New ''no actions in window''), (NewActionWindow :: string ActionWindow), demoClient, None)
   \<and> \<not> w_registered demoWindow \<and> w_actions demoWindow \<noteq> []
   \<and> RegisterActions freshClient (w_actions demoWindow)
       = (Failure (New ''not connected''), freshClient\<lparr>actions := [(''ping'', pingHandler)]\<rparr>)
   \<and> Register demoWindow freshClient
       = (Failure (Wrapf ''failed to register actions'' (New ''not connected'')),
          demoWindow\<lparr>w_registered := True\<rparr>, freshClient\<lparr>actions := [(''ping'', pingHandler)]\<rparr>, None)"
proof -
  have r: "RegisterActions freshClient (w_actions demoWindow)
       = (Failure (New ''not connected''), freshClient\<lparr>actions := [(''ping'', pingHandler)]\<rparr>)"
    by (simp add: RegisterActions_def demoWindow_def freshClient_def pingHandler_def send_def Let_def)
  have a: "w_registered (demoWindow\<lparr>w_registered := True\<rparr>)" by simp
  have b: "\<not> w_registered (NewActionWindow :: string ActionWindow)
           \<and> w_actions (NewActionWindow :: string ActionWindow) = []"
    by (simp add: NewActionWindow_def)
  have c: "\<not> w_registered demoWindow \<and> w_actions demoWindow \<noteq> []" by (simp add: demoWindow_def)
  have m: "\<not> w_mu demoWindow \<and> \<not> w_mu (NewActionWindow :: string ActionWindow)
           \<and> \<not> w_mu (demoWindow\<lparr>w_registered := True\<rparr>)"
    by (simp add: demoWindow_def NewActionWindow_def)
  show ?thesis
    using Register_failure_modes [of "demoWindow\<lparr>w_registered := True\<rparr>" demoClient]
      Register_failure_modes [of "NewActionWindow :: string ActionWindow" demoClient]
      Register_failure_modes [of demoWindow freshClient "New ''not connected''"
         "freshClient\<lparr>actions := [(''ping'', pingHandler)]\<rparr>"]
      a b c r m
    by simp
qed

text \<open>
  The claim as written has the window not end up registered when the inner call fails.
  On a client that never connected the inner call fails with \<open>not connected\<close>, and the
  window comes back with \<open>registered\<close> set.
\<close>

theorem Register_failure_leaves_registered:
  "\<not> w_registered demoWindow
   \<and> RegisterActions freshClient (w_actions demoWindow) = (Failure (New ''not connected''), freshClient\<lparr>actions := [(''ping'', pingHandler)]\<rparr>)
   \<and> Register demoWindow freshClient =
       (Failure (Wrapf ''failed to register actions'' (New ''not connected'')),
        demoWindow\<lparr>w_registered := True\<rparr>, freshClient\<lparr>actions := [(''ping'', pingHandler)]\<rparr>, None)
   \<and> w_registered (fst (snd (Register demoWindow freshClient)))"
  by (simp add: Register_def RegisterActions_def demoWindow_def freshClient_def pingHandler_def send_def Let_def)

section \<open>Forcing: claim C5\<close>



section \<open>Registration and lookup: claims C6 and C9\<close>

text \<open>
  Claim C6, as amended. For every handler list \<open>H\<close> in which no handler has an empty name,
  after \<open>RegisterActions c H\<close> (entered with \<open>actionsMu\<close> free) a lookup of the name of a handler of \<open>H\<close> returns the last
  handler of \<open>H\<close> with that name: the handler itself when no later handler of \<open>H\<close> shares
  its name, and so every handler of \<open>H\<close> when the names in \<open>H\<close> are distinct. This holds
  whatever the send of the \<open>actions/register\<close> frame returns.
\<close>

theorem RegisterActions_lookup_last:
  assumes "\<forall>h\<in>set H. GetName h \<noteq> []" and "\<not> actionsMu c"
  shows "(\<forall>h\<in>set H. lookup (snd (RegisterActions c H)) (GetName h)
                     = find (\<lambda>x. GetName x = GetName h) (rev H))
       \<and> (\<forall>i<length H. (\<forall>j. i < j \<and> j < length H \<longrightarrow> GetName (H ! j) \<noteq> GetName (H ! i))
              \<longrightarrow> lookup (snd (RegisterActions c H)) (GetName (H ! i)) = Some (H ! i))
       \<and> (distinct (map GetName H)
              \<longrightarrow> (\<forall>h\<in>set H. lookup (snd (RegisterActions c H)) (GetName h) = Some h))"
proof -
  note reg = RegisterActions_named [OF assms]
  have a: "lookup (snd (RegisterActions c H)) (GetName h) = find (\<lambda>x. GetName x = GetName h) (rev H)"
    if "h \<in> set H" for h
  proof -
    have "find (\<lambda>x. GetName x = GetName h) (rev H) \<noteq> None"
      using that by (auto simp: find_None_iff)
    then obtain h' where "find (\<lambda>x. GetName x = GetName h) (rev H) = Some h'" by blast
    then show ?thesis by (simp add: lookup_def reg map_of_insertAll)
  qed
  have b: "lookup (snd (RegisterActions c H)) (GetName (H ! i)) = Some (H ! i)"
    if "i < length H" and "\<forall>j. i < j \<and> j < length H \<longrightarrow> GetName (H ! j) \<noteq> GetName (H ! i)" for i
    using find_last_occurrence [OF that] by (simp add: lookup_def reg map_of_insertAll)
  have c: "lookup (snd (RegisterActions c H)) (GetName h) = Some h"
    if d: "distinct (map GetName H)" and "h \<in> set H" for h
  proof -
    from that(2) obtain i where i: "i < length H" "H ! i = h" by (auto simp: in_set_conv_nth)
    have "\<forall>j. i < j \<and> j < length H \<longrightarrow> GetName (H ! j) \<noteq> GetName (H ! i)"
    proof (intro allI impI)
      fix j assume j: "i < j \<and> j < length H"
      then have "map GetName H ! j \<noteq> map GetName H ! i"
        using d i(1) by (simp add: nth_eq_iff_index_eq del: nth_map)
      then show "GetName (H ! j) \<noteq> GetName (H ! i)" using j i(1) by simp
    qed
    from b [OF i(1) this] show ?thesis using i(2) by simp
  qed
  show ?thesis using a b c by blast
qed

theorem RegisterActions_lookup_last_witness:
  "GetName pingHandler \<noteq> [] \<and> GetName jumpHandler \<noteq> [] \<and> \<not> actionsMu connectedClient
   \<and> distinct (map GetName [pingHandler, jumpHandler])
   \<and> lookup (snd (RegisterActions connectedClient [pingHandler, jumpHandler])) ''ping'' = Some pingHandler
   \<and> lookup (snd (RegisterActions connectedClient [pingHandler, jumpHandler])) ''jump'' = Some jumpHandler"
proof -
  have n: "GetName jumpHandler = ''jump''" "GetName pingHandler = ''ping''"
    by (simp_all add: jumpHandler_def pingHandler_def)
  have h: "\<forall>h\<in>set [pingHandler, jumpHandler]. GetName h \<noteq> []" by (simp add: n)
  have d: "distinct (map GetName [pingHandler, jumpHandler])" by (simp add: n)
  have m: "\<not> actionsMu connectedClient" by (simp add: connectedClient_def)
  from RegisterActions_lookup_last [OF h m] h d m
  show ?thesis by (simp add: n)
qed

text \<open>
  The claim as written asks only for one handler with a non-empty name and promises each
  handler back. In the list below the first handler has a non-empty name; after the call
  its name is bound to the second handler, which replaced it, and the empty name of the
  third is bound to nothing.
\<close>

theorem RegisterActions_lookup_counterexample:
  "GetName pingHandler \<noteq> []
   \<and> lookup (snd (RegisterActions connectedClient [pingHandler, pingTwice, namelessHandler]))
        (GetName pingHandler) \<noteq> Some pingHandler
   \<and> lookup (snd (RegisterActions connectedClient [pingHandler, pingTwice, namelessHandler]))
        (GetName namelessHandler) \<noteq> Some namelessHandler"
proof -
  have 1: "GetName pingHandler \<noteq> []" by (simp add: pingHandler_def)
  have 2: "pingTwice \<noteq> pingHandler" by (simp add: pingHandler_def pingTwice_def)
  have n: "GetName pingHandler = ''ping''" "GetName pingTwice = ''ping''" "GetName namelessHandler = []"
    by (simp_all add: pingHandler_def pingTwice_def namelessHandler_def)
  have 3: "snd (RegisterActions connectedClient [pingHandler, pingTwice, namelessHandler])
            = connectedClient\<lparr>actions := [(''ping'', pingTwice)]\<rparr>"
    by (simp add: RegisterActions_def n connectedClient_def Let_def)
  show ?thesis using 1 2 by (simp add: 3 lookup_def n)
qed

text \<open>
  Claim C9. When position \<open>i\<close> holds the first handler of \<open>H\<close> with an empty name,
  \<open>RegisterActions c H\<close> (entered with \<open>actionsMu\<close> free) returns the validation error \<open>action name cannot be empty\<close> and has
  no effect on the outside (no frame, no log line). The registry is the old one with the
  handlers before position \<open>i\<close> inserted in order and nothing else changed: a lookup of the
  name of a handler before \<open>i\<close> returns the last handler before \<open>i\<close> with that name (the
  handler itself when its name does not come again before \<open>i\<close>), and every name not borne by
  a handler before \<open>i\<close> has the binding it had before the call, so nothing at position \<open>i\<close> or
  later was inserted.
\<close>

theorem RegisterActions_partial_insertion:
  assumes "i < length H" and "GetName (H ! i) = []" and "\<forall>j<i. GetName (H ! j) \<noteq> []"
    and "\<not> actionsMu c"
  shows "RegisterActions c H =
           (Failure (New ''action name cannot be empty''),
            c\<lparr>actions := insertAll (take i H) (actions c)\<rparr>)
       \<and> kindOf (New ''action name cannot be empty'') = ValidationError
       \<and> newEvents c (snd (RegisterActions c H)) = []
       \<and> (\<forall>j<i. (\<forall>l. j < l \<and> l < i \<longrightarrow> GetName (H ! l) \<noteq> GetName (H ! j))
              \<longrightarrow> lookup (snd (RegisterActions c H)) (GetName (H ! j)) = Some (H ! j))
       \<and> (\<forall>j<i. lookup (snd (RegisterActions c H)) (GetName (H ! j))
               = find (\<lambda>x. GetName x = GetName (H ! j)) (rev (take i H)))
       \<and> (\<forall>n. n \<notin> GetName ` set (take i H)
              \<longrightarrow> lookup (snd (RegisterActions c H)) n = lookup c n)"
proof -
  note eq = RegisterActions_stops [OF assms]
  have il: "i \<le> length H" using assms(1) by simp
  have last: "lookup (snd (RegisterActions c H)) (GetName (H ! j)) = Some (H ! j)"
    if "j < i" and "\<forall>l. j < l \<and> l < i \<longrightarrow> GetName (H ! l) \<noteq> GetName (H ! j)" for j
  proof -
    have "find (\<lambda>x. GetName x = GetName (take i H ! j)) (rev (take i H)) = Some (take i H ! j)"
      by (rule find_last_occurrence) (use that il in auto)
    then show ?thesis using that(1) by (simp add: eq lookup_def map_of_insertAll)
  qed
  have present: "lookup (snd (RegisterActions c H)) (GetName (H ! j))
               = find (\<lambda>x. GetName x = GetName (H ! j)) (rev (take i H))" if "j < i" for j
  proof -
    have "H ! j \<in> set (take i H)" using that il by (auto simp: in_set_conv_nth intro!: exI [of _ j])
    then obtain h' where "find (\<lambda>x. GetName x = GetName (H ! j)) (rev (take i H)) = Some h'"
      by (cases "find (\<lambda>x. GetName x = GetName (H ! j)) (rev (take i H))") (auto simp: find_None_iff)
    then show ?thesis by (simp add: eq lookup_def map_of_insertAll)
  qed
  have untouched: "lookup (snd (RegisterActions c H)) n = lookup c n"
    if "n \<notin> GetName ` set (take i H)" for n
    using find_absent [OF that] by (simp add: eq lookup_def map_of_insertAll)
  show ?thesis
    using eq last present untouched by (simp add: newEvents_def)
qed

theorem RegisterActions_partial_insertion_witness:
  "(1::nat) < length [jumpHandler, namelessHandler, pingTwice]
   \<and> GetName ([jumpHandler, namelessHandler, pingTwice] ! 1) = []
   \<and> GetName ([jumpHandler, namelessHandler, pingTwice] ! 0) \<noteq> []
   \<and> \<not> actionsMu demoClient
   \<and> RegisterActions demoClient [jumpHandler, namelessHandler, pingTwice] =
       (Failure (New ''action name cannot be empty''),
        demoClient\<lparr>actions := [(''ping'', pingHandler), (''jump'', jumpHandler)]\<rparr>)
   \<and> newEvents demoClient (snd (RegisterActions demoClient [jumpHandler, namelessHandler, pingTwice])) = []
   \<and> lookup (snd (RegisterActions demoClient [jumpHandler, namelessHandler, pingTwice])) ''jump''
       = Some jumpHandler
   \<and> lookup (snd (RegisterActions demoClient [jumpHandler, namelessHandler, pingTwice])) ''ping''
       = Some pingHandler"
proof -
  have n: "GetName jumpHandler = ''jump''" "GetName namelessHandler = []" "GetName pingTwice = ''ping''"
    by (simp_all add: jumpHandler_def namelessHandler_def pingTwice_def)
  have h1: "(1::nat) < length [jumpHandler, namelessHandler, pingTwice]" by simp
  have h2: "GetName ([jumpHandler, namelessHandler, pingTwice] ! 1) = []" by (simp add: n)
  have h3: "\<forall>j<1. GetName ([jumpHandler, namelessHandler, pingTwice] ! j) \<noteq> []" by (simp add: n)
  have ev: "RegisterActions demoClient [jumpHandler, namelessHandler, pingTwice] =
       (Failure (New ''action name cannot be empty''),
        demoClient\<lparr>actions := [(''ping'', pingHandler), (''jump'', jumpHandler)]\<rparr>)"
    by (simp add: RegisterActions_def n demoClient_def Let_def)
  have h4: "\<not> actionsMu demoClient" by (simp add: demoClient_def)
  from RegisterActions_partial_insertion [OF h1 h2 h3 h4] h1 h2 h3 h4
  show ?thesis
    by (simp add: ev newEvents_def lookup_def insertAll_def n demoClient_def)
qed

section \<open>The game stamp: claim C7\<close>

text \<open>
  Claim C7. Whatever game an envelope holds when it enters \<open>send\<close>, the frame handed to the
  transport is that envelope with the game replaced by the configured one. Along every run
  of operations from any state, every frame handed to the transport carries the configured
  game.
\<close>

theorem outbound_game_stamped:
  "(\<forall>w\<in>set (writesOf (newEvents c (snd (send c msg)))). w = msg\<lparr>Game := cfg_Game (config c)\<rparr>)
   \<and> (\<forall>w\<in>set (writesOf (newEvents c (performAll ops c))). Game w = cfg_Game (config c))"
proof
  show "\<forall>w\<in>set (writesOf (newEvents c (snd (send c msg)))). w = msg\<lparr>Game := cfg_Game (config c)\<rparr>"
    by (simp add: send_def newEvents_def emit_def Let_def split: option.splits)
  from performAll_stamped [of c ops]
  show "\<forall>w\<in>set (writesOf (newEvents c (performAll ops c))). Game w = cfg_Game (config c)"
    by (auto simp: stampedStep_def newEvents_def)
qed

theorem outbound_game_stamped_witness:
  "writesOf (newEvents demoClient
       (snd (send demoClient \<lparr>Command = ''context'', Game = ''another game'', Data = None\<rparr>)))
     = [\<lparr>Command = ''context'', Game = ''T'', Data = None\<rparr>]
   \<and> writesOf (newEvents demoClient
       (performAll [OpSendContext ''hi'' True, OpUnregisterActions [''ping'']] demoClient))
     = [\<lparr>Command = ''context'', Game = ''T'',
          Data = Some (JObj [(''message'', JStr ''hi''), (''silent'', JBool True)])\<rparr>,
        \<lparr>Command = ''actions/unregister'', Game = ''T'',
          Data = Some (JObj [(''action_names'', JArr [JStr ''ping''])])\<rparr>]"
  using outbound_game_stamped
    [of demoClient "\<lparr>Command = ''context'', Game = ''another game'', Data = None\<rparr>"
        "[OpSendContext ''hi'' True, OpUnregisterActions [''ping'']]"]
  by (simp add: demoClient_def demoConfig_def openConn_def send_def SendContext_def
        UnregisterActions_def WriteMessage_def emit_def newEvents_def Let_def)

section \<open>Closing twice: claim C8\<close>



section \<open>Re-registration with an empty registry: claim C10\<close>

text \<open>
  Claim C10. With an empty registry \<open>resendRegisteredActions\<close> leaves the client as it is,
  so it sends nothing (and it returns when \<open>actionsMu\<close> is free); a frame that decodes to the
  command \<open>actions/reregister_all\<close> is then handled with one log line and no frame handed
  to the transport.
\<close>

theorem resend_empty_registry:
  assumes "actions c = []"
  shows "snd (resendRegisteredActions c) = c
       \<and> (\<not> actionsMu c \<longrightarrow> resendRegisteredActions c = (Success, c))
       \<and> (unmarshalMessage bytes = Inr msg \<and> Command msg = ''actions/reregister_all''
            \<longrightarrow> handleMessage unmarshalMessage unmarshalAction c bytes
                  = (Success, emit c [Logged ''Received: actions/reregister_all''])
              \<and> writesOf (newEvents c (snd (handleMessage unmarshalMessage unmarshalAction c bytes))) = [])"
  using assms
  by (simp add: resendRegisteredActions_def handleMessage_def emit_def newEvents_def Let_def)

theorem resend_empty_registry_witness:
  "actions connectedClient = [] \<and> \<not> actionsMu connectedClient
   \<and> resendRegisteredActions connectedClient = (Success, connectedClient)
   \<and> writesOf (newEvents connectedClient
        (snd (handleMessage (\<lambda>b. Inr \<lparr>Command = ''actions/reregister_all'', Game = [], Data = None\<rparr>)
                (\<lambda>d. Inl (External ''unused'')) connectedClient ''raw bytes''))) = []"
  using resend_empty_registry
    [of connectedClient "\<lambda>b. Inr \<lparr>Command = ''actions/reregister_all'', Game = [], Data = None\<rparr>"
        "''raw bytes''" "\<lparr>Command = ''actions/reregister_all'', Game = [], Data = None\<rparr>"
        "\<lambda>d. Inl (External ''unused'')"]
  by (simp add: connectedClient_def emit_def newEvents_def)

end
